theory Spec2Isabelle
  imports Complex_Main "HOL-Library.Word" "HOL-Library.AList"
begin

section \<open>Resource Ledger (internal/resourcemanager/resourcemanager.go)\<close>

text \<open>
  Go's \<open>int\<close> is the 64-bit two's complement integer of the platforms the program is
  built for: \<open>+\<close> and \<open>-\<close> wrap around, comparisons are signed. It is modelled as
  \<open>64 word\<close>, read with \<open>sint\<close> for comparisons.

  \<open>float64\<close> is modelled by the real numbers: addition and comparison are exact, so the
  rounding of IEEE arithmetic, the infinities and NaN are outside the model.

  A Go \<open>map[string]T\<close> is an association list with distinct keys; \<open>m[k] = v\<close> is
  \<open>AList.update\<close>, \<open>delete(m, k)\<close> is \<open>AList.delete\<close>, and a \<open>range\<close> loop that adds
  up the values is \<open>sum_list\<close> over the second components (the order of a Go map
  iteration is arbitrary; addition in both models is commutative).
\<close>

type_synonym go_int = "64 word"

record ResourceSpec =
  CPU :: real
  Memory :: go_int

record ResourceManager =
  TotalCPU :: real
  TotalMemory :: go_int
  allocatedCPU :: "(string \<times> real) list"
  allocatedMemory :: "(string \<times> go_int) list"

definition NewResourceManager :: "real \<Rightarrow> go_int \<Rightarrow> ResourceManager" where
  "NewResourceManager cpu memory =
     \<lparr>TotalCPU = cpu, TotalMemory = memory, allocatedCPU = [], allocatedMemory = []\<rparr>"

definition AllocatedCPUSum :: "ResourceManager \<Rightarrow> real" where
  "AllocatedCPUSum rm = sum_list (map snd (allocatedCPU rm))"

definition AllocatedMemorySum :: "ResourceManager \<Rightarrow> go_int" where
  "AllocatedMemorySum rm = sum_list (map snd (allocatedMemory rm))"

definition CanAllocate :: "ResourceManager \<Rightarrow> ResourceSpec \<Rightarrow> bool" where
  "CanAllocate rm spec =
     (let usedCPU = sum_list (map snd (allocatedCPU rm));
          usedMem = sum_list (map snd (allocatedMemory rm))
      in usedCPU + CPU spec \<le> TotalCPU rm
         \<and> sint (usedMem + Memory spec) \<le> sint (TotalMemory rm))"

definition Allocate :: "ResourceManager \<Rightarrow> string \<Rightarrow> ResourceSpec \<Rightarrow> bool \<times> ResourceManager" where
  "Allocate rm ident spec =
     (let usedCPU = sum_list (map snd (allocatedCPU rm));
          usedMem = sum_list (map snd (allocatedMemory rm))
      in if usedCPU + CPU spec > TotalCPU rm
            \<or> sint (usedMem + Memory spec) > sint (TotalMemory rm)
         then (False, rm)
         else (True, rm\<lparr>allocatedCPU := AList.update ident (CPU spec) (allocatedCPU rm),
                        allocatedMemory := AList.update ident (Memory spec) (allocatedMemory rm)\<rparr>))"

definition Release :: "ResourceManager \<Rightarrow> string \<Rightarrow> ResourceManager" where
  "Release rm ident =
     rm\<lparr>allocatedCPU := AList.delete ident (allocatedCPU rm),
        allocatedMemory := AList.delete ident (allocatedMemory rm)\<rparr>"

definition Usage :: "ResourceManager \<Rightarrow> ResourceSpec" where
  "Usage rm =
     \<lparr>CPU = sum_list (map snd (allocatedCPU rm)),
      Memory = sum_list (map snd (allocatedMemory rm))\<rparr>"

text \<open>A sequence of calls on one ledger, as a caller of the package can issue them.\<close>

datatype ledger_call = AllocateCall string ResourceSpec | ReleaseCall string

fun ledger_step :: "ResourceManager \<Rightarrow> ledger_call \<Rightarrow> ResourceManager" where
  "ledger_step rm (AllocateCall ident spec) = snd (Allocate rm ident spec)"
| "ledger_step rm (ReleaseCall ident) = Release rm ident"

definition ledger_run :: "ResourceManager \<Rightarrow> ledger_call list \<Rightarrow> ResourceManager" where
  "ledger_run rm calls = foldl ledger_step rm calls"


section \<open>Execution backend (internal/docker/docker.go)\<close>

text \<open>
  \<open>time.Time\<close> is an instant in nanoseconds on one time line (unbounded: the type's range
  exceeds any sum of a clock reading and a duration), \<open>time.Duration\<close> is Go's \<open>int64\<close>
  count of nanoseconds.
\<close>

type_synonym go_int64 = "64 word"
type_synonym Time = int
type_synonym Duration = go_int64

definition Add :: "Time \<Rightarrow> Duration \<Rightarrow> Time" where
  "Add t d = t + sint d"

definition Before :: "Time \<Rightarrow> Time \<Rightarrow> bool" where
  "Before t u = (t < u)"

text \<open>A Go \<open>error\<close> is its message; \<open>fmt.Errorf("prefix: %w", err)\<close> prepends to it.\<close>

datatype error = Error string

fun Errorf :: "string \<Rightarrow> error \<Rightarrow> error" where
  "Errorf prefix (Error msg) = Error (prefix @ msg)"

record ContainerSpec =
  spec_Image :: string
  spec_Name :: string
  spec_CPU :: real
  spec_Memory :: go_int64
  spec_Command :: "string list"
  spec_TTL :: Duration

text \<open>
  The Docker daemon behind \<open>dc.cli\<close> is outside the repository. It is a parameter of the
  model: a function from the requests made so far and the current request to the reply,
  an error or a string (the new container's id for a create, unused otherwise). The client
  records the requests it has made, in order. The reply to \<open>ImagePull\<close> stands for the
  pull and the copy of its output, which \<open>PullImage\<close> performs together; \<open>ContainerCreate\<close>
  carries the spec from which \<open>CreateContainer\<close> builds the daemon's configuration.

  The fields of \<open>ContainerSpec\<close> and \<open>ContainerInfo\<close> carry the prefixes \<open>spec_\<close> and
  \<open>info_\<close>, since the structs of the program share field names.
\<close>

datatype request =
    ImagePull string
  | ContainerCreate ContainerSpec
  | ContainerStart string
  | ContainerStop string
  | ContainerRemove string

record DockerClient =
  cli :: "request list \<Rightarrow> request \<Rightarrow> error + string"
  requests :: "request list"

definition send :: "DockerClient \<Rightarrow> request \<Rightarrow> (error + string) \<times> DockerClient" where
  "send dc r = (cli dc (requests dc) r, dc\<lparr>requests := requests dc @ [r]\<rparr>)"

definition failure :: "error + string \<Rightarrow> error option" where
  "failure reply = (case reply of Inl err \<Rightarrow> Some err | Inr _ \<Rightarrow> None)"

section \<open>Objects shared through pointers\<close>

text \<open>
  A node, its manager and the cluster hold pointers to the same docker client and the same
  ledger. The store maps each pointer to the object it points to; a method with a
  pointer receiver takes the pointer and the store and returns the store updated.
\<close>

type_synonym ptr = nat

record ContainerInfo =
  info_ID :: string
  info_Name :: string
  info_Image :: string
  info_CPU :: real
  info_MemoryMB :: go_int64
  info_CreatedAt :: Time
  info_Status :: string
  info_TTL :: Duration

record Manager =
  docker :: ptr
  state :: "(string \<times> ContainerInfo) list"
  resources :: ptr

record store =
  dockers :: "ptr \<Rightarrow> DockerClient"
  ledgers :: "ptr \<Rightarrow> ResourceManager"
  managers :: "ptr \<Rightarrow> Manager"

definition dockerCall :: "ptr \<Rightarrow> request \<Rightarrow> store \<Rightarrow> (error + string) \<times> store" where
  "dockerCall dc r w =
     (let (reply, client) = send (dockers w dc) r
      in (reply, w\<lparr>dockers := (dockers w)(dc := client)\<rparr>))"

definition PullImage :: "ptr \<Rightarrow> string \<Rightarrow> store \<Rightarrow> error option \<times> store" where
  "PullImage dc img w = (let (reply, w') = dockerCall dc (ImagePull img) w in (failure reply, w'))"

definition CreateContainer :: "ptr \<Rightarrow> ContainerSpec \<Rightarrow> store \<Rightarrow> (error + string) \<times> store" where
  "CreateContainer dc spec w = dockerCall dc (ContainerCreate spec) w"

definition StartContainer :: "ptr \<Rightarrow> string \<Rightarrow> store \<Rightarrow> error option \<times> store" where
  "StartContainer dc ident w = (let (reply, w') = dockerCall dc (ContainerStart ident) w in (failure reply, w'))"

definition StopContainer :: "ptr \<Rightarrow> string \<Rightarrow> store \<Rightarrow> error option \<times> store" where
  "StopContainer dc ident w = (let (reply, w') = dockerCall dc (ContainerStop ident) w in (failure reply, w'))"

definition RemoveContainer :: "ptr \<Rightarrow> string \<Rightarrow> store \<Rightarrow> error option \<times> store" where
  "RemoveContainer dc ident w = (let (reply, w') = dockerCall dc (ContainerRemove ident) w in (failure reply, w'))"

text \<open>The ledger's methods, called through a pointer.\<close>

definition AllocateAt :: "ptr \<Rightarrow> string \<Rightarrow> ResourceSpec \<Rightarrow> store \<Rightarrow> bool \<times> store" where
  "AllocateAt rm ident spec w =
     (let (ok, ledger) = Allocate (ledgers w rm) ident spec
      in (ok, w\<lparr>ledgers := (ledgers w)(rm := ledger)\<rparr>))"

definition ReleaseAt :: "ptr \<Rightarrow> string \<Rightarrow> store \<Rightarrow> store" where
  "ReleaseAt rm ident w = w\<lparr>ledgers := (ledgers w)(rm := Release (ledgers w rm) ident)\<rparr>"

section \<open>Lifecycle Manager (internal/manager/manager.go)\<close>

definition NewManager :: "ptr \<Rightarrow> ptr \<Rightarrow> Manager" where
  "NewManager dc rm = \<lparr>docker = dc, state = [], resources = rm\<rparr>"

definition AddContainer :: "ptr \<Rightarrow> string \<Rightarrow> ContainerInfo \<Rightarrow> store \<Rightarrow> store" where
  "AddContainer m ident info w =
     w\<lparr>managers := (managers w)(m := (managers w m)\<lparr>state := AList.update ident info (state (managers w m))\<rparr>)\<rparr>"

text \<open>
  A Go function returning \<open>(*ContainerInfo, error)\<close> returns a pair of two optional values;
  \<open>time.Now()\<close> is the parameter \<open>now\<close>.
\<close>

type_synonym result = "ContainerInfo option \<times> error option"

definition ProvisionContainer :: "ptr \<Rightarrow> Time \<Rightarrow> ContainerSpec \<Rightarrow> store \<Rightarrow> result \<times> store" where
  "ProvisionContainer m now spec w =
     (let rSpec = \<lparr>CPU = spec_CPU spec, Memory = spec_Memory spec\<rparr>;
          rm = resources (managers w m);
          dc = docker (managers w m)
      in if \<not> CanAllocate (ledgers w rm) rSpec
         then ((None, Some (Error ''insufficient resources to allocate container'')), w)
         else
           (case AllocateAt rm (spec_Name spec) rSpec w of
              (False, w1) \<Rightarrow> ((None, Some (Error ''failed to reserve resources'')), w1)
            | (True, w1) \<Rightarrow>
               (case PullImage dc (spec_Image spec) w1 of
                  (Some err, w2) \<Rightarrow>
                    ((None, Some (Errorf ''failed to pull image: '' err)),
                     ReleaseAt rm (spec_Name spec) w2)
                | (None, w2) \<Rightarrow>
                   (case CreateContainer dc spec w2 of
                      (Inl err, w3) \<Rightarrow>
                        ((None, Some (Errorf ''failed to create container: '' err)),
                         ReleaseAt rm (spec_Name spec) w3)
                    | (Inr ident, w3) \<Rightarrow>
                       (case StartContainer dc ident w3 of
                          (Some err, w4) \<Rightarrow>
                            ((None, Some (Errorf ''failed to start container: '' err)),
                             ReleaseAt rm (spec_Name spec) w4)
                        | (None, w4) \<Rightarrow>
                           (let info = \<lparr>info_ID = ident, info_Name = spec_Name spec,
                                        info_Image = spec_Image spec, info_CPU = spec_CPU spec,
                                        info_MemoryMB = spec_Memory spec, info_CreatedAt = now,
                                        info_Status = ''running'', info_TTL = spec_TTL spec\<rparr>
                            in ((Some info, None),
                                w4\<lparr>managers := (managers w4)(m := (managers w4 m)
                                      \<lparr>state := AList.update ident info (state (managers w4 m))\<rparr>)\<rparr>)))))))"

definition TerminateContainer :: "ptr \<Rightarrow> string \<Rightarrow> store \<Rightarrow> error option \<times> store" where
  "TerminateContainer m ident w =
     (case map_of (state (managers w m)) ident of
        None \<Rightarrow> (Some (Error ''container not found''), w)
      | Some info \<Rightarrow>
         (case StopContainer (docker (managers w m)) ident w of
            (Some err, w1) \<Rightarrow> (Some (Errorf ''stop error: '' err), w1)
          | (None, w1) \<Rightarrow>
             (case RemoveContainer (docker (managers w1 m)) ident w1 of
                (Some err, w2) \<Rightarrow> (Some (Errorf ''remove error: '' err), w2)
              | (None, w2) \<Rightarrow>
                 (let w3 = ReleaseAt (resources (managers w2 m)) (info_Name info) w2
                  in (None,
                      w3\<lparr>managers := (managers w3)(m := (managers w3 m)
                            \<lparr>state := AList.delete ident (state (managers w3 m))\<rparr>)\<rparr>)))))"

definition GetContainerStatus :: "ptr \<Rightarrow> string \<Rightarrow> store \<Rightarrow> result" where
  "GetContainerStatus m ident w =
     (case map_of (state (managers w m)) ident of
        None \<Rightarrow> (None, Some (Error ''container not found''))
      | Some info \<Rightarrow> (Some info, None))"

definition ListActiveContainers :: "ptr \<Rightarrow> store \<Rightarrow> ContainerInfo list" where
  "ListActiveContainers m w = map snd (state (managers w m))"

text \<open>
  The sweep ranges over the records of \<open>m.state\<close>. The only entry a step removes is the
  one being visited, so the loop visits each entry of the map as it was when the loop
  started. The messages printed on the way are not part of the state.
\<close>

definition expired :: "Time \<Rightarrow> ContainerInfo \<Rightarrow> bool" where
  "expired now info = (sint (info_TTL info) > 0 \<and> Before (Add (info_CreatedAt info) (info_TTL info)) now)"

fun cleanupLoop :: "ptr \<Rightarrow> Time \<Rightarrow> (string \<times> ContainerInfo) list \<Rightarrow> store \<Rightarrow> store" where
  "cleanupLoop m now [] w = w"
| "cleanupLoop m now ((ident, info) # rest) w =
     (if expired now info
      then cleanupLoop m now rest (snd (TerminateContainer m ident w))
      else cleanupLoop m now rest w)"

definition cleanupExpiredContainers :: "ptr \<Rightarrow> Time \<Rightarrow> store \<Rightarrow> store" where
  "cleanupExpiredContainers m now w = cleanupLoop m now (state (managers w m)) w"

section \<open>Cluster Scheduler (internal/cluster/cluster.go)\<close>

record Node =
  node_ID :: string
  Docker :: ptr
  Resources :: ptr
  node_Manager :: ptr

text \<open>
  \<open>nodes\<close> is a Go map ranged over by \<open>Schedule\<close> and \<open>TerminateContainer\<close>: the
  association list gives the order of that iteration, which is arbitrary.
\<close>

record ClusterManager =
  nodes :: "(string \<times> Node) list"
  assignments :: "(string \<times> string) list"

definition NewClusterManager :: "(string \<times> Node) list \<Rightarrow> ClusterManager" where
  "NewClusterManager ns = \<lparr>nodes = ns, assignments = []\<rparr>"

definition MaxFloat64 :: real where
  "MaxFloat64 = 2 ^ 1023 * (2 - 1 / 2 ^ 52)"

definition requested :: "ContainerSpec \<Rightarrow> ResourceSpec" where
  "requested spec = \<lparr>CPU = spec_CPU spec, Memory = spec_Memory spec\<rparr>"

definition leftover :: "ResourceManager \<Rightarrow> ContainerSpec \<Rightarrow> real" where
  "leftover rm spec =
     (let leftoverCPU = TotalCPU rm - (AllocatedCPUSum rm + spec_CPU spec);
          leftoverMem = real_of_int (sint (TotalMemory rm - (AllocatedMemorySum rm + spec_Memory spec)))
      in leftoverCPU + leftoverMem / 1024)"

fun selectLoop :: "store \<Rightarrow> ContainerSpec \<Rightarrow> (string \<times> Node) list \<Rightarrow> Node option \<times> real \<Rightarrow> Node option \<times> real" where
  "selectLoop w spec [] (selectedNode, minLeftover) = (selectedNode, minLeftover)"
| "selectLoop w spec ((name, node) # rest) (selectedNode, minLeftover) =
     (if CanAllocate (ledgers w (Resources node)) (requested spec)
      then (if leftover (ledgers w (Resources node)) spec < minLeftover
            then selectLoop w spec rest (Some node, leftover (ledgers w (Resources node)) spec)
            else selectLoop w spec rest (selectedNode, minLeftover))
      else selectLoop w spec rest (selectedNode, minLeftover))"

definition selectNode :: "ClusterManager \<Rightarrow> ContainerSpec \<Rightarrow> store \<Rightarrow> Node option" where
  "selectNode cm spec w = fst (selectLoop w spec (nodes cm) (None, MaxFloat64))"

text \<open>
  \<open>uuid.New().String()\<close> is the parameter \<open>containerID\<close>. In the branch where the start
  fails, the inner \<open>err :=\<close> shadows the start's error: when the removal succeeds the
  function returns the removal's error, which is nil.
\<close>

definition Schedule ::
  "ClusterManager \<Rightarrow> Time \<Rightarrow> string \<Rightarrow> ContainerSpec \<Rightarrow> store \<Rightarrow> result \<times> ClusterManager \<times> store" where
  "Schedule cm now containerID spec w =
     (case selectNode cm spec w of
        None \<Rightarrow> ((None, Some (Error ''no node has enough resources'')), cm, w)
      | Some selectedNode \<Rightarrow>
         (case AllocateAt (Resources selectedNode) containerID (requested spec) w of
            (False, w1) \<Rightarrow> ((None, Some (Error ''failed to allocate resources'')), cm, w1)
          | (True, w1) \<Rightarrow>
             (let named = spec\<lparr>spec_Name := containerID\<rparr>
              in case CreateContainer (Docker selectedNode) named w1 of
                   (Inl err, w2) \<Rightarrow>
                     ((None, Some err), cm, ReleaseAt (Resources selectedNode) containerID w2)
                 | (Inr ident, w2) \<Rightarrow>
                    (case StartContainer (Docker selectedNode) ident w2 of
                       (Some _, w3) \<Rightarrow>
                         (case RemoveContainer (Docker selectedNode) ident w3 of
                            (Some err, w4) \<Rightarrow> ((None, Some err), cm, w4)
                          | (None, w4) \<Rightarrow>
                              ((None, None), cm, ReleaseAt (Resources selectedNode) containerID w4))
                     | (None, w3) \<Rightarrow>
                        (let info = \<lparr>info_ID = ident, info_Name = spec_Name named,
                                     info_Image = spec_Image named, info_CPU = spec_CPU named,
                                     info_MemoryMB = spec_Memory named, info_CreatedAt = now,
                                     info_Status = ''Running'', info_TTL = spec_TTL named\<rparr>
                         in ((Some info, None), cm,
                             AddContainer (node_Manager selectedNode) ident info w3))))))"

definition ClusterGetContainerStatus :: "ClusterManager \<Rightarrow> string \<Rightarrow> store \<Rightarrow> result" where
  "ClusterGetContainerStatus cm ident w =
     (case map_of (assignments cm) ident of
        None \<Rightarrow> (None, Some (Error (''container '' @ ident @ '' not found'')))
      | Some nodeName \<Rightarrow>
         (case map_of (nodes cm) nodeName of
            None \<Rightarrow> (None, Some (Error (''node '' @ nodeName @ '' not found for container '' @ ident)))
          | Some node \<Rightarrow> GetContainerStatus (node_Manager node) ident w))"

fun terminateLoop :: "(string \<times> Node) list \<Rightarrow> string \<Rightarrow> store \<Rightarrow> error option \<times> store" where
  "terminateLoop [] ident w = (Some (Error ''container not found''), w)"
| "terminateLoop ((name, node) # rest) ident w =
     (case TerminateContainer (node_Manager node) ident w of
        (None, w1) \<Rightarrow> (None, ReleaseAt (Resources node) ident w1)
      | (Some _, w1) \<Rightarrow> terminateLoop rest ident w1)"

definition ClusterTerminateContainer ::
  "ClusterManager \<Rightarrow> string \<Rightarrow> store \<Rightarrow> error option \<times> ClusterManager \<times> store" where
  "ClusterTerminateContainer cm ident w =
     (let (err, w') = terminateLoop (nodes cm) ident w in (err, cm, w'))"

text \<open>
  The program's wiring (\<open>main\<close>): node1 with 4 cores and 8192 MB, node2 with 8 cores and
  16384 MB, each node sharing its docker client and its ledger with its manager. The
  objects of node1 are at address 101, those of node2 at address 102.
\<close>

definition node1 :: Node where
  "node1 = \<lparr>node_ID = ''node1'', Docker = 101, Resources = 101, node_Manager = 101\<rparr>"

definition node2 :: Node where
  "node2 = \<lparr>node_ID = ''node2'', Docker = 102, Resources = 102, node_Manager = 102\<rparr>"

definition main_store :: "(request list \<Rightarrow> request \<Rightarrow> error + string) \<Rightarrow> store" where
  "main_store daemon =
     \<lparr>dockers = (\<lambda>p. \<lparr>cli = daemon, requests = []\<rparr>),
      ledgers = (\<lambda>p. if p = 101 then NewResourceManager 4 8192 else NewResourceManager 8 16384),
      managers = (\<lambda>p. NewManager p p)\<rparr>"

definition main_cluster :: ClusterManager where
  "main_cluster = NewClusterManager [(''node1'', node1), (''node2'', node2)]"

section \<open>Vocabulary of the properties\<close>

text \<open>The two reservation maps of a ledger have the same keys.\<close>

definition same_keys :: "ResourceManager \<Rightarrow> bool" where
  "same_keys rm = (fst ` set (allocatedCPU rm) = fst ` set (allocatedMemory rm))"

text \<open>
  A call fits a ledger when the amounts it requests are non-negative and the sum formed
  by the capacity check stays below \<open>2 ^ 63\<close> whenever the reserved memory is within the
  total, so that the check does not wrap around.
\<close>

fun fits :: "ResourceManager \<Rightarrow> ledger_call \<Rightarrow> bool" where
  "fits rm (AllocateCall ident spec) =
     (0 \<le> CPU spec \<and> 0 \<le> sint (Memory spec) \<and> sint (TotalMemory rm) + sint (Memory spec) < 2 ^ 63)"
| "fits rm (ReleaseCall ident) = True"

definition ledger_inv :: "ResourceManager \<Rightarrow> bool" where
  "ledger_inv rm =
     ((\<forall>p \<in> set (allocatedCPU rm). 0 \<le> snd p)
      \<and> (\<forall>p \<in> set (allocatedMemory rm). 0 \<le> sint (snd p))
      \<and> sum_list (map (\<lambda>p. snd p) (allocatedCPU rm)) \<le> TotalCPU rm
      \<and> sum_list (map (\<lambda>p. sint (snd p)) (allocatedMemory rm)) \<le> sint (TotalMemory rm))"

text \<open>
  The requests of the overflow scenario: one MB for \<open>a\<close>, then \<open>math.MaxInt64\<close> MB for
  the same id.
\<close>

definition overflow_calls :: "ledger_call list" where
  "overflow_calls =
     [AllocateCall ''a'' \<lparr>CPU = 1, Memory = 1\<rparr>,
      AllocateCall ''a'' \<lparr>CPU = 1, Memory = 9223372036854775807\<rparr>]"

text \<open>
  What the daemon answers to the stop and to the removal that \<open>TerminateContainer\<close> sends
  from a given store, and the store after a client has sent some requests.
\<close>

definition stop_reply :: "ptr \<Rightarrow> string \<Rightarrow> store \<Rightarrow> error + string" where
  "stop_reply m ident w =
     (let dc = dockers w (docker (managers w m)) in cli dc (requests dc) (ContainerStop ident))"

definition remove_reply :: "ptr \<Rightarrow> string \<Rightarrow> store \<Rightarrow> error + string" where
  "remove_reply m ident w =
     (let dc = dockers w (docker (managers w m))
      in cli dc (requests dc @ [ContainerStop ident]) (ContainerRemove ident))"

definition sent :: "ptr \<Rightarrow> request list \<Rightarrow> store \<Rightarrow> store" where
  "sent dc rs w = w\<lparr>dockers := (dockers w)(dc := (dockers w dc)\<lparr>requests := requests (dockers w dc) @ rs\<rparr>)\<rparr>"

text \<open>
  The effect of a completed teardown: the reservation under the record's name is released
  and the record is deleted.
\<close>

definition terminated :: "ptr \<Rightarrow> string \<Rightarrow> ContainerInfo \<Rightarrow> store \<Rightarrow> store \<Rightarrow> bool" where
  "terminated m ident info w w1 =
     (ledgers w1 = (ledgers w)(resources (managers w m) :=
                      Release (ledgers w (resources (managers w m))) (info_Name info))
      \<and> managers w1 = (managers w)(m := (managers w m)\<lparr>state := AList.delete ident (state (managers w m))\<rparr>))"

text \<open>The ids a list of requests asks to stop; a daemon that never refuses a stop or a removal.\<close>

fun stops :: "request list \<Rightarrow> string list" where
  "stops [] = []"
| "stops (ContainerStop ident # rs) = ident # stops rs"
| "stops (r # rs) = stops rs"

definition reliable :: "DockerClient \<Rightarrow> bool" where
  "reliable dc = (\<forall>history ident. \<not> isl (cli dc history (ContainerStop ident))
                                \<and> \<not> isl (cli dc history (ContainerRemove ident)))"

text \<open>The ids with a reservation in a ledger.\<close>

definition reserved :: "ResourceManager \<Rightarrow> string set" where
  "reserved rm = fst ` set (allocatedCPU rm) \<union> fst ` set (allocatedMemory rm)"

text \<open>
  What no step of the manager changes: the pointers a manager holds, the daemon behind a
  client; and what it only shrinks: the records of a manager, the reserved ids of a ledger.
\<close>

definition frame :: "store \<Rightarrow> store \<Rightarrow> bool" where
  "frame w w1 =
     ((\<forall>m. docker (managers w1 m) = docker (managers w m)
           \<and> resources (managers w1 m) = resources (managers w m)
           \<and> set (state (managers w1 m)) \<subseteq> set (state (managers w m)))
      \<and> (\<forall>d. cli (dockers w1 d) = cli (dockers w d))
      \<and> (\<forall>r. reserved (ledgers w1 r) \<subseteq> reserved (ledgers w r)))"

text \<open>
  The sweep's loop invariant: the keys of the state are distinct, as those of a Go map are,
  and the entries still to visit are entries of the state.
\<close>

definition pending :: "ptr \<Rightarrow> (string \<times> ContainerInfo) list \<Rightarrow> store \<Rightarrow> bool" where
  "pending m rest w =
     (distinct (map fst (state (managers w m))) \<and> distinct (map fst rest)
      \<and> set rest \<subseteq> set (state (managers w m)))"

text \<open>
  Daemons for concrete runs: one that refuses the requests chosen by a predicate and
  accepts the others, naming a created container after the name it was given.
\<close>

definition daemon :: "(request \<Rightarrow> bool) \<Rightarrow> request list \<Rightarrow> request \<Rightarrow> error + string" where
  "daemon refused history r =
     (if refused r then Inl (Error ''refused'')
      else (case r of ContainerCreate spec \<Rightarrow> Inr (''id-'' @ spec_Name spec) | _ \<Rightarrow> Inr []))"

fun is_start :: "request \<Rightarrow> bool" where
  "is_start (ContainerStart ident) = True"
| "is_start r = False"

fun is_stop :: "request \<Rightarrow> bool" where
  "is_stop (ContainerStop ident) = True"
| "is_stop r = False"

fun is_remove :: "request \<Rightarrow> bool" where
  "is_remove (ContainerRemove ident) = True"
| "is_remove r = False"

definition web :: ContainerSpec where
  "web = \<lparr>spec_Image = ''nginx'', spec_Name = ''web'', spec_CPU = 1, spec_Memory = 2048,
           spec_Command = [], spec_TTL = 0\<rparr>"

definition running_store :: "(request \<Rightarrow> bool) \<Rightarrow> store" where
  "running_store refused = snd (ProvisionContainer 101 0 web (main_store (daemon refused)))"

text \<open>
  A node passes admission control for a request; the score \<open>Schedule\<close> computes for it.
\<close>

definition eligible :: "store \<Rightarrow> ContainerSpec \<Rightarrow> Node \<Rightarrow> bool" where
  "eligible w spec node = CanAllocate (ledgers w (Resources node)) (requested spec)"

definition score :: "store \<Rightarrow> ContainerSpec \<Rightarrow> Node \<Rightarrow> real" where
  "score w spec node = leftover (ledgers w (Resources node)) spec"





text \<open>
  Runs of \<open>Schedule\<close> on the program's cluster: the store before any request with a daemon
  that refuses nothing, the store after the request \<open>web\<close> was scheduled under the fresh
  id \<open>u-1\<close>, the request as \<open>Schedule\<close> names it, and a daemon that refuses to start
  and to remove a container.
\<close>

definition idle_store :: store where
  "idle_store = main_store (daemon (\<lambda>r. False))"

definition scheduled_store :: store where
  "scheduled_store = snd (snd (Schedule main_cluster 0 ''u-1'' web idle_store))"

definition named :: ContainerSpec where
  "named = web\<lparr>spec_Name := ''u-1''\<rparr>"

definition cleanup_refused :: "request \<Rightarrow> bool" where
  "cleanup_refused r = (is_start r \<or> is_remove r)"

text \<open>
  Stores for the sweep: one whose record has a negative time-to-live, and one with a
  record that never expires (\<open>id-web\<close>) and a record that lives 5 ns (\<open>id-job\<close>).
\<close>

definition stale_store :: store where
  "stale_store =
     snd (ProvisionContainer 101 0 (web\<lparr>spec_TTL := - 5000000000\<rparr>) (main_store (daemon (\<lambda>r. False))))"

definition sweep_store :: store where
  "sweep_store =
     snd (ProvisionContainer 101 0 (web\<lparr>spec_Name := ''job'', spec_TTL := 5\<rparr>)
            (running_store (\<lambda>r. False)))"

section \<open>Properties of the Resource Ledger\<close>

lemma keys_delete: "fst ` set (AList.delete k al) = fst ` set al - {k}"
  by (auto simp add: AList.delete_eq image_iff)

lemma set_delete: "set (AList.delete k al) \<subseteq> set al"
  by (auto simp add: AList.delete_eq)

lemma set_update: "set (AList.update k v al) \<subseteq> insert (k, v) (set al)"
  by (induction al) (auto split: if_splits)

lemma nonneg_update:
  fixes f :: "'v \<Rightarrow> 'a::ordered_ab_group_add"
  assumes "\<forall>p \<in> set al. 0 \<le> f (snd p)" and "0 \<le> f v"
  shows "\<forall>p \<in> set (AList.update k v al). 0 \<le> f (snd p)"
proof
  fix p assume "p \<in> set (AList.update k v al)"
  then have "p = (k, v) \<or> p \<in> set al" using set_update [of k v al] by auto
  then show "0 \<le> f (snd p)" using assms by auto
qed

lemma nonneg_delete:
  fixes f :: "'v \<Rightarrow> 'a::ordered_ab_group_add"
  assumes "\<forall>p \<in> set al. 0 \<le> f (snd p)"
  shows "\<forall>p \<in> set (AList.delete k al). 0 \<le> f (snd p)"
  using assms set_delete [of k al] by auto

lemma sum_update:
  fixes f :: "'v \<Rightarrow> 'a::ab_group_add"
  shows "sum_list (map (\<lambda>p. f (snd p)) (AList.update k v al))
         = sum_list (map (\<lambda>p. f (snd p)) al) - (case map_of al k of None \<Rightarrow> 0 | Some u \<Rightarrow> f u) + f v"
  by (induction al) (auto simp add: algebra_simps)

lemma sum_delete:
  fixes f :: "'v \<Rightarrow> 'a::ordered_ab_group_add"
  assumes "\<forall>p \<in> set al. 0 \<le> f (snd p)"
  shows "sum_list (map (\<lambda>p. f (snd p)) (AList.delete k al)) \<le> sum_list (map (\<lambda>p. f (snd p)) al)"
  using assms
proof (induction al)
  case Nil
  then show ?case by simp
next
  case (Cons p al)
  then have "sum_list (map (\<lambda>p. f (snd p)) (AList.delete k al)) \<le> sum_list (map (\<lambda>p. f (snd p)) al)"
    by simp
  moreover have "0 \<le> f (snd p)" using Cons.prems by simp
  ultimately show ?case by (simp add: add_increasing add_mono)
qed

lemma sum_nonneg_values:
  fixes f :: "'v \<Rightarrow> 'a::ordered_ab_group_add"
  shows "\<forall>p \<in> set al. 0 \<le> f (snd p) \<Longrightarrow> 0 \<le> sum_list (map (\<lambda>p. f (snd p)) al)"
  by (induction al) auto

lemma sint_add_in_range:
  fixes a b :: go_int
  assumes "- (2 ^ 63) \<le> sint a + sint b" and "sint a + sint b < 2 ^ 63"
  shows "sint (a + b) = sint a + sint b"
  using assms by (simp add: sint_word_add signed_take_bit_int_eq_self)


lemma sint_sum_list:
  fixes ws :: "go_int list"
  assumes "\<forall>u \<in> set ws. 0 \<le> sint u" and "sum_list (map sint ws) < 2 ^ 63"
  shows "sint (sum_list ws) = sum_list (map sint ws)"
  using assms
proof (induction ws)
  case Nil
  then show ?case by simp
next
  case (Cons u ws)
  have nn: "0 \<le> sum_list (map sint ws)"
    using Cons.prems(1) by (intro sum_list_nonneg) auto
  have u0: "0 \<le> sint u" using Cons.prems(1) by simp
  have ih: "sint (sum_list ws) = sum_list (map sint ws)"
    using Cons.IH Cons.prems u0 by simp
  have "sint (u + sum_list ws) = sint u + sint (sum_list ws)"
    using Cons.prems(2) u0 nn ih
    by (intro sint_add_in_range) auto
  then show ?case using ih by simp
qed


lemma ledger_inv_sint_sum:
  assumes "ledger_inv rm"
  shows "sint (sum_list (map snd (allocatedMemory rm))) = sum_list (map (\<lambda>p. sint (snd p)) (allocatedMemory rm))"
proof -
  have "sum_list (map sint (map snd (allocatedMemory rm))) \<le> sint (TotalMemory rm)"
    using assms by (simp add: ledger_inv_def comp_def)
  also have "\<dots> < 2 ^ 63" using sint_lt [of "TotalMemory rm"] by simp
  finally have "sint (sum_list (map snd (allocatedMemory rm))) = sum_list (map sint (map snd (allocatedMemory rm)))"
    using assms by (intro sint_sum_list) (auto simp add: ledger_inv_def)
  then show ?thesis by (simp add: comp_def)
qed

lemma removed_nonneg:
  fixes f :: "'v \<Rightarrow> 'a::ordered_ab_group_add"
  shows "\<forall>p \<in> set al. 0 \<le> f (snd p) \<Longrightarrow> 0 \<le> (case map_of al k of None \<Rightarrow> 0 | Some u \<Rightarrow> f u)"
  by (auto split: option.splits dest!: map_of_SomeD)

lemma ledger_inv_Release: "ledger_inv rm \<Longrightarrow> ledger_inv (Release rm ident)"
  unfolding ledger_inv_def Release_def
  using nonneg_delete [of "allocatedCPU rm" "\<lambda>v. v" ident] nonneg_delete [of "allocatedMemory rm" sint ident]
    sum_delete [of "allocatedCPU rm" "\<lambda>v. v" ident] sum_delete [of "allocatedMemory rm" sint ident]
  by auto

lemma ledger_inv_Allocate:
  assumes inv: "ledger_inv rm" and fit: "fits rm (AllocateCall ident spec)"
  shows "ledger_inv (snd (Allocate rm ident spec))"
proof (cases "fst (Allocate rm ident spec)")
  case False
  then have "snd (Allocate rm ident spec) = rm"
    by (auto simp add: Allocate_def Let_def split: if_splits)
  with inv show ?thesis by simp
next
  case True
  let ?usedMem = "sum_list (map snd (allocatedMemory rm))"
  let ?usedCPU = "sum_list (map snd (allocatedCPU rm))"
  let ?S = "sum_list (map (\<lambda>p. sint (snd p)) (allocatedMemory rm))"
  from True have cpu_ok: "?usedCPU + CPU spec \<le> TotalCPU rm"
    and mem_ok: "sint (?usedMem + Memory spec) \<le> sint (TotalMemory rm)"
    and new: "snd (Allocate rm ident spec) =
        rm\<lparr>allocatedCPU := AList.update ident (CPU spec) (allocatedCPU rm),
           allocatedMemory := AList.update ident (Memory spec) (allocatedMemory rm)\<rparr>"
    by (auto simp add: Allocate_def Let_def split: if_splits)
  have used: "sint ?usedMem = ?S" by (rule ledger_inv_sint_sum [OF inv])
  have S0: "0 \<le> ?S" using inv by (intro sum_nonneg_values) (simp add: ledger_inv_def)
  have ST: "?S \<le> sint (TotalMemory rm)" using inv by (simp add: ledger_inv_def)
  have "sint (?usedMem + Memory spec) = sint ?usedMem + sint (Memory spec)"
    using fit S0 ST used by (intro sint_add_in_range) auto
  with mem_ok used have mem: "?S + sint (Memory spec) \<le> sint (TotalMemory rm)" by simp
  have oldm: "0 \<le> (case map_of (allocatedMemory rm) ident of None \<Rightarrow> 0 | Some u \<Rightarrow> sint u)"
    using inv by (intro removed_nonneg) (simp add: ledger_inv_def)
  have oldc: "0 \<le> (case map_of (allocatedCPU rm) ident of None \<Rightarrow> 0 | Some u \<Rightarrow> u)"
    using inv by (intro removed_nonneg [where f = "\<lambda>v. v"]) (simp add: ledger_inv_def)
  have vc: "\<forall>p \<in> set (AList.update ident (CPU spec) (allocatedCPU rm)). 0 \<le> snd p"
    using inv fit by (intro nonneg_update [where f = "\<lambda>v. v"]) (auto simp add: ledger_inv_def)
  have vm: "\<forall>p \<in> set (AList.update ident (Memory spec) (allocatedMemory rm)). 0 \<le> sint (snd p)"
    using inv fit by (intro nonneg_update [where f = sint]) (auto simp add: ledger_inv_def)
  have sc: "sum_list (map (\<lambda>p. snd p) (AList.update ident (CPU spec) (allocatedCPU rm))) \<le> TotalCPU rm"
    using cpu_ok oldc sum_update [of "\<lambda>v. v" ident "CPU spec" "allocatedCPU rm"] by simp
  have sm: "sum_list (map (\<lambda>p. sint (snd p)) (AList.update ident (Memory spec) (allocatedMemory rm)))
            \<le> sint (TotalMemory rm)"
    using mem oldm sum_update [of sint ident "Memory spec" "allocatedMemory rm"] by simp
  show ?thesis unfolding new ledger_inv_def using vc vm sc sm by simp
qed

lemma Total_ledger_step: "TotalMemory (ledger_step rm c) = TotalMemory rm \<and> TotalCPU (ledger_step rm c) = TotalCPU rm"
  by (cases c) (auto simp add: Allocate_def Release_def Let_def)

lemma fits_Total: "TotalMemory rm' = TotalMemory rm \<Longrightarrow> fits rm' c = fits rm c"
  by (cases c) auto

lemma ledger_inv_run:
  "ledger_inv rm \<Longrightarrow> \<forall>c \<in> set calls. fits rm c \<Longrightarrow> ledger_inv (ledger_run rm calls)"
proof (induction calls arbitrary: rm)
  case Nil
  then show ?case by (simp add: ledger_run_def)
next
  case (Cons c calls)
  have step: "ledger_inv (ledger_step rm c)"
  proof (cases c)
    case (AllocateCall ident spec)
    with Cons.prems show ?thesis by (simp add: ledger_inv_Allocate del: fits.simps)
  next
    case (ReleaseCall ident)
    with Cons.prems show ?thesis by (simp add: ledger_inv_Release)
  qed
  have "\<forall>c' \<in> set calls. fits (ledger_step rm c) c'"
    using Cons.prems(2) fits_Total [OF conjunct1 [OF Total_ledger_step [of rm c]]] by simp
  with step have "ledger_inv (ledger_run (ledger_step rm c) calls)" by (rule Cons.IH)
  then show ?case by (simp add: ledger_run_def)
qed

text \<open>
  Where no capacity check wraps (every call fits), the sums stay within the totals after
  any sequence of calls on a ledger created with non-negative totals.
\<close>

lemma ledger_within_capacity:
  assumes "0 \<le> cpu" and "0 \<le> sint memory"
    and "\<forall>c \<in> set calls. fits (NewResourceManager cpu memory) c"
  shows "AllocatedCPUSum (ledger_run (NewResourceManager cpu memory) calls) \<le> cpu
         \<and> sint (AllocatedMemorySum (ledger_run (NewResourceManager cpu memory) calls)) \<le> sint memory"
proof -
  let ?rm = "ledger_run (NewResourceManager cpu memory) calls"
  have "ledger_inv (NewResourceManager cpu memory)"
    using assms(1,2) by (simp add: ledger_inv_def NewResourceManager_def)
  then have inv: "ledger_inv ?rm" using assms(3) by (rule ledger_inv_run)
  have tot: "TotalCPU ?rm = cpu \<and> TotalMemory ?rm = memory"
    unfolding ledger_run_def
    by (induction calls rule: rev_induct) (simp_all add: NewResourceManager_def Total_ledger_step)
  show ?thesis
    using inv ledger_inv_sint_sum [OF inv] tot
    by (simp add: ledger_inv_def AllocatedCPUSum_def AllocatedMemorySum_def)
qed


text \<open>
  C5. The sum of the reserved memory is meant to stay within the total. The capacity check
  adds the request to the reserved sum in Go's \<open>int\<close>, and the sum wraps: on a ledger of
  4 cores and 8192 MB, after \<open>Allocate("a", 1 core, 1 MB)\<close> the call
  \<open>Allocate("a", 1 core, 9223372036854775807 MB)\<close> computes \<open>1 + MaxInt64 = MinInt64\<close>,
  which is not above 8192, and reserves. The reserved memory is then 9223372036854775807 MB
  of a total of 8192 MB, as \<open>Usage\<close> and \<open>AllocatedMemorySum\<close> report it; both requests
  are non-negative.
\<close>

theorem Allocate_wraps_past_total:
  "allocatedMemory (ledger_run (NewResourceManager 4 8192) overflow_calls) = [(''a'', 9223372036854775807)]
   \<and> sint (Memory (Usage (ledger_run (NewResourceManager 4 8192) overflow_calls))) = 9223372036854775807
   \<and> sint (AllocatedMemorySum (ledger_run (NewResourceManager 4 8192) overflow_calls)) = 9223372036854775807
   \<and> sint (TotalMemory (ledger_run (NewResourceManager 4 8192) overflow_calls)) = 8192
   \<and> AllocatedCPUSum (ledger_run (NewResourceManager 4 8192) overflow_calls) = 1"
  by (simp add: overflow_calls_def ledger_run_def NewResourceManager_def Allocate_def Usage_def
      AllocatedMemorySum_def AllocatedCPUSum_def)

text \<open>
  C9. \<open>Release\<close> of an id that has no reservation (a key of neither map) returns the
  ledger as it was, and releasing an id twice gives the same ledger as releasing it once.
  \<open>Release\<close> has no error result: it returns the ledger only.
\<close>

theorem Release_noop_idempotent:
  "(ident \<notin> fst ` set (allocatedCPU rm) \<and> ident \<notin> fst ` set (allocatedMemory rm)
      \<longrightarrow> Release rm ident = rm)
   \<and> Release (Release rm ident) ident = Release rm ident"
  by (simp add: Release_def AList.delete_id AList.delete_idem)

theorem Release_noop_idempotent_witness:
  "''b'' \<notin> fst ` set (allocatedCPU (snd (Allocate (NewResourceManager 4 8192) ''a'' \<lparr>CPU = 1, Memory = 512\<rparr>)))
   \<and> ''b'' \<notin> fst ` set (allocatedMemory (snd (Allocate (NewResourceManager 4 8192) ''a'' \<lparr>CPU = 1, Memory = 512\<rparr>)))
   \<and> Release (snd (Allocate (NewResourceManager 4 8192) ''a'' \<lparr>CPU = 1, Memory = 512\<rparr>)) ''b''
       = snd (Allocate (NewResourceManager 4 8192) ''a'' \<lparr>CPU = 1, Memory = 512\<rparr>)"
  using Release_noop_idempotent
    [of "''b''" "snd (Allocate (NewResourceManager 4 8192) ''a'' \<lparr>CPU = 1, Memory = 512\<rparr>)"]
  by (simp add: Allocate_def NewResourceManager_def)

text \<open>
  C10. The constructor returns a ledger whose two reservation maps have the same keys,
  and \<open>Allocate\<close> (whether it reserves or refuses) and \<open>Release\<close> keep it so: an id has a
  CPU reservation if and only if it has a memory reservation.
\<close>

theorem ledger_keys_agree:
  "same_keys (NewResourceManager cpu memory)
   \<and> (same_keys rm \<longrightarrow> same_keys (snd (Allocate rm ident spec)) \<and> same_keys (Release rm ident))"
  by (auto simp add: same_keys_def NewResourceManager_def Allocate_def Release_def Let_def
      AList.dom_update keys_delete)

theorem ledger_keys_agree_witness:
  "same_keys (NewResourceManager 4 8192)
   \<and> same_keys (snd (Allocate (NewResourceManager 4 8192) ''a'' \<lparr>CPU = 1, Memory = 512\<rparr>))
   \<and> same_keys (Release (NewResourceManager 4 8192) ''a'')"
  using ledger_keys_agree [of 4 8192 "NewResourceManager 4 8192" "''a''" "\<lparr>CPU = 1, Memory = 512\<rparr>"]
  by simp

section \<open>Properties of the Lifecycle Manager\<close>

lemmas eval_defs = running_store_def ProvisionContainer_def main_store_def daemon_def web_def
  CanAllocate_def AllocateAt_def Allocate_def ReleaseAt_def Release_def NewResourceManager_def NewManager_def
  PullImage_def CreateContainer_def StartContainer_def StopContainer_def RemoveContainer_def
  dockerCall_def send_def failure_def stop_reply_def remove_reply_def Let_def

lemma TerminateContainer_absent:
  "map_of (state (managers w m)) ident = None
   \<Longrightarrow> TerminateContainer m ident w = (Some (Error ''container not found''), w)"
  by (simp add: TerminateContainer_def)

lemma TerminateContainer_stop_failed:
  "map_of (state (managers w m)) ident = Some info \<Longrightarrow> stop_reply m ident w = Inl err
   \<Longrightarrow> TerminateContainer m ident w
       = (Some (Errorf ''stop error: '' err), sent (docker (managers w m)) [ContainerStop ident] w)"
  by (simp add: TerminateContainer_def StopContainer_def dockerCall_def send_def failure_def
      stop_reply_def sent_def Let_def)

lemma TerminateContainer_remove_failed:
  "map_of (state (managers w m)) ident = Some info \<Longrightarrow> stop_reply m ident w = Inr a
   \<Longrightarrow> remove_reply m ident w = Inl err
   \<Longrightarrow> TerminateContainer m ident w
       = (Some (Errorf ''remove error: '' err),
          sent (docker (managers w m)) [ContainerStop ident, ContainerRemove ident] w)"
  by (simp add: TerminateContainer_def StopContainer_def RemoveContainer_def dockerCall_def send_def
      failure_def stop_reply_def remove_reply_def sent_def Let_def)

lemma TerminateContainer_done:
  "map_of (state (managers w m)) ident = Some info \<Longrightarrow> stop_reply m ident w = Inr a
   \<Longrightarrow> remove_reply m ident w = Inr b
   \<Longrightarrow> TerminateContainer m ident w
       = (None,
          (sent (docker (managers w m)) [ContainerStop ident, ContainerRemove ident] w)
            \<lparr>ledgers := (ledgers w)(resources (managers w m) :=
                 Release (ledgers w (resources (managers w m))) (info_Name info)),
             managers := (managers w)(m := (managers w m)
                 \<lparr>state := AList.delete ident (state (managers w m))\<rparr>)\<rparr>)"
  by (simp add: TerminateContainer_def StopContainer_def RemoveContainer_def dockerCall_def send_def
      failure_def stop_reply_def remove_reply_def sent_def ReleaseAt_def Let_def)

lemmas TerminateContainer_cases =
  TerminateContainer_absent TerminateContainer_stop_failed TerminateContainer_remove_failed
  TerminateContainer_done

lemma reliable_stop:
  "reliable (dockers w (docker (managers w m))) \<Longrightarrow> stop_reply m ident w \<noteq> Inl err"
  unfolding reliable_def stop_reply_def Let_def by (metis sum.disc(1))

lemma reliable_remove:
  "reliable (dockers w (docker (managers w m))) \<Longrightarrow> remove_reply m ident w \<noteq> Inl err"
  unfolding reliable_def remove_reply_def Let_def by (metis sum.disc(1))

lemma TerminateContainer_step:
  assumes "map_of (state (managers w m)) ident = Some info"
  shows "(if fst (TerminateContainer m ident w) = None
          then terminated m ident info w (snd (TerminateContainer m ident w))
          else ledgers (snd (TerminateContainer m ident w)) = ledgers w
               \<and> managers (snd (TerminateContainer m ident w)) = managers w)
         \<and> (\<forall>d. cli (dockers (snd (TerminateContainer m ident w)) d) = cli (dockers w d))
         \<and> (\<exists>new. requests (dockers (snd (TerminateContainer m ident w)) (docker (managers w m)))
                     = requests (dockers w (docker (managers w m))) @ new
                   \<and> stops new = [ident])
         \<and> (reliable (dockers w (docker (managers w m))) \<longrightarrow> fst (TerminateContainer m ident w) = None)"
proof (cases "stop_reply m ident w")
  case (Inl err)
  then have "\<not> reliable (dockers w (docker (managers w m)))"
    using reliable_stop by blast
  with Inl assms show ?thesis
    by (simp add: TerminateContainer_stop_failed sent_def)
next
  case stop: (Inr a)
  show ?thesis
  proof (cases "remove_reply m ident w")
    case (Inl err)
    then have "\<not> reliable (dockers w (docker (managers w m)))"
      using reliable_remove by blast
    with Inl stop assms show ?thesis
      by (simp add: TerminateContainer_remove_failed sent_def)
  next
    case (Inr b)
    with stop assms show ?thesis
      by (simp add: TerminateContainer_done sent_def terminated_def)
  qed
qed




lemma reserved_Release: "reserved (Release rm ident) = reserved rm - {ident}"
  by (auto simp add: reserved_def Release_def keys_delete)

lemma frame_refl: "frame w w"
  by (simp add: frame_def)

lemma frame_trans: "frame w w1 \<Longrightarrow> frame w1 w2 \<Longrightarrow> frame w w2"
  unfolding frame_def by (metis subset_trans)

lemma TerminateContainer_frame: "frame w (snd (TerminateContainer m ident w))"
proof (cases "map_of (state (managers w m)) ident")
  case None
  then show ?thesis by (simp add: TerminateContainer_absent frame_refl)
next
  case (Some info)
  note step = TerminateContainer_step [OF Some]
  show ?thesis
  proof (cases "fst (TerminateContainer m ident w) = None")
    case True
    with step have "terminated m ident info w (snd (TerminateContainer m ident w))" by simp
    then show ?thesis
      using step set_delete [of ident "state (managers w m)"]
      by (auto simp add: frame_def terminated_def reserved_Release)
  next
    case False
    with step show ?thesis by (simp add: frame_def)
  qed
qed

lemma cleanupLoop_frame: "frame w (cleanupLoop m now rest w)"
proof (induction rest arbitrary: w)
  case Nil
  then show ?case by (simp add: frame_refl)
next
  case (Cons p rest)
  obtain ident info where p: "p = (ident, info)" by (cases p)
  show ?case
    using Cons.IH [of w] Cons.IH [of "snd (TerminateContainer m ident w)"]
      TerminateContainer_frame [of w m ident] frame_trans
    by (auto simp add: p)
qed


lemma distinct_key_unique:
  "distinct (map fst al) \<Longrightarrow> (k, v) \<in> set al \<Longrightarrow> (k, v') \<in> set al \<Longrightarrow> v = v'"
  by (metis map_of_is_SomeI option.inject)

lemma set_delete_distinct:
  assumes "distinct (map fst al)" and "(k, v) \<in> set al"
  shows "set (AList.delete k al) = set al - {(k, v)}"
  using assms distinct_key_unique [OF assms(1)] by (auto simp add: AList.delete_eq)

lemma pending_head:
  assumes "pending m ((ident, info) # rest) w"
  shows "map_of (state (managers w m)) ident = Some info" and "(ident, info) \<notin> set rest"
    and "pending m rest w"
  using assms by (auto simp add: pending_def image_iff)

lemma pending_step:
  assumes "pending m ((ident, info) # rest) w"
  shows "pending m rest (snd (TerminateContainer m ident w))"
proof -
  let ?w1 = "snd (TerminateContainer m ident w)"
  note step = TerminateContainer_step [OF pending_head(1) [OF assms]]
  show ?thesis
  proof (cases "fst (TerminateContainer m ident w) = None")
    case True
    with step have st: "state (managers ?w1 m) = AList.delete ident (state (managers w m))"
      by (simp add: terminated_def)
    have "(ident, info) \<in> set (state (managers w m))" using assms by (simp add: pending_def)
    then have "set (state (managers ?w1 m)) = set (state (managers w m)) - {(ident, info)}"
      using assms st by (simp add: set_delete_distinct pending_def)
    then show ?thesis
      using assms pending_head(2) [OF assms] st
      by (auto simp add: pending_def AList.distinct_delete)
  next
    case False
    with step have "managers ?w1 = managers w" by simp
    then show ?thesis using pending_head(3) [OF assms] by (simp add: pending_def)
  qed
qed

lemma cleanupLoop_keeps:
  assumes "pending m rest w" and "p \<in> set (state (managers w m))"
    and "p \<notin> set rest \<or> \<not> expired now (snd p)"
  shows "p \<in> set (state (managers (cleanupLoop m now rest w) m))"
  using assms
proof (induction rest arbitrary: w)
  case Nil
  then show ?case by simp
next
  case (Cons q rest)
  obtain ident info where q: "q = (ident, info)" by (cases q)
  note head = pending_head [OF Cons.prems(1) [unfolded q]]
  show ?case
  proof (cases "expired now info")
    case True
    let ?w1 = "snd (TerminateContainer m ident w)"
    have ne: "p \<noteq> (ident, info)" using Cons.prems(3) True q by auto
    have "set (state (managers w m)) - {(ident, info)} \<subseteq> set (state (managers ?w1 m))"
    proof (cases "fst (TerminateContainer m ident w) = None")
      case True
      with TerminateContainer_step [OF head(1)]
      have "state (managers ?w1 m) = AList.delete ident (state (managers w m))"
        by (simp add: terminated_def)
      then show ?thesis
        using set_delete_distinct [of "state (managers w m)" ident info] Cons.prems(1)
        by (simp add: pending_def q)
    next
      case False
      with TerminateContainer_step [OF head(1)] show ?thesis by auto
    qed
    with ne Cons.prems(2) have in1: "p \<in> set (state (managers ?w1 m))" by auto
    have pend1: "pending m rest ?w1" using Cons.prems(1) q pending_step by simp
    have "p \<notin> set rest \<or> \<not> expired now (snd p)" using Cons.prems(3) by auto
    with pend1 in1 have "p \<in> set (state (managers (cleanupLoop m now rest ?w1) m))"
      by (rule Cons.IH)
    then show ?thesis using True by (simp add: q)
  next
    case False
    have "p \<notin> set rest \<or> \<not> expired now (snd p)" using Cons.prems(3) by auto
    with head(3) Cons.prems(2) have "p \<in> set (state (managers (cleanupLoop m now rest w) m))"
      by (rule Cons.IH)
    then show ?thesis using False by (simp add: q)
  qed
qed



lemma cleanupLoop_released:
  assumes "pending m rest w" and "p \<in> set (state (managers w m))"
    and "p \<notin> set (state (managers (cleanupLoop m now rest w) m))"
  shows "info_Name (snd p) \<notin> reserved (ledgers (cleanupLoop m now rest w) (resources (managers w m)))"
  using assms
proof (induction rest arbitrary: w)
  case Nil
  then show ?case by simp
next
  case (Cons q rest)
  obtain ident info where q: "q = (ident, info)" by (cases q)
  note head = pending_head [OF Cons.prems(1) [unfolded q]]
  show ?case
  proof (cases "expired now info")
    case True
    let ?w1 = "snd (TerminateContainer m ident w)"
    let ?w2 = "cleanupLoop m now rest ?w1"
    have loop: "cleanupLoop m now (q # rest) w = ?w2" using True by (simp add: q)
    have pend1: "pending m rest ?w1" using Cons.prems(1) q pending_step by simp
    have res: "resources (managers ?w1 m) = resources (managers w m)"
      using TerminateContainer_frame [of w m ident] by (simp add: frame_def)
    show ?thesis
    proof (cases "p \<in> set (state (managers ?w1 m))")
      case True
      have "p \<notin> set (state (managers ?w2 m))" using Cons.prems(3) loop by simp
      with pend1 True
      have "info_Name (snd p) \<notin> reserved (ledgers ?w2 (resources (managers ?w1 m)))"
        by (rule Cons.IH)
      then show ?thesis using loop res by simp
    next
      case False
      note step = TerminateContainer_step [OF head(1)]
      have gone: "fst (TerminateContainer m ident w) = None"
        using step False Cons.prems(2) by (cases "fst (TerminateContainer m ident w) = None") auto
      with step have t: "terminated m ident info w ?w1" by simp
      then have "set (state (managers ?w1 m)) = set (state (managers w m)) - {(ident, info)}"
        using set_delete_distinct [of "state (managers w m)" ident info] Cons.prems(1)
        by (simp add: terminated_def pending_def q)
      with False Cons.prems(2) have p: "p = (ident, info)" by auto
      have "info_Name info \<notin> reserved (ledgers ?w1 (resources (managers w m)))"
        using t by (simp add: terminated_def reserved_Release)
      moreover have "reserved (ledgers ?w2 (resources (managers w m)))
                     \<subseteq> reserved (ledgers ?w1 (resources (managers w m)))"
        using cleanupLoop_frame [of ?w1 m now rest] by (simp add: frame_def)
      ultimately show ?thesis using loop p by auto
    qed
  next
    case False
    then have loop: "cleanupLoop m now (q # rest) w = cleanupLoop m now rest w" by (simp add: q)
    have "p \<notin> set (state (managers (cleanupLoop m now rest w) m))" using Cons.prems(3) loop by simp
    with head(3) Cons.prems(2)
    have "info_Name (snd p) \<notin> reserved (ledgers (cleanupLoop m now rest w) (resources (managers w m)))"
      by (rule Cons.IH)
    then show ?thesis using loop by simp
  qed
qed

lemma stops_append: "stops (xs @ ys) = stops xs @ stops ys"
  by (induction xs rule: stops.induct) auto

lemma cleanupLoop_requests:
  assumes "pending m rest w"
  shows "\<exists>new. requests (dockers (cleanupLoop m now rest w) (docker (managers w m)))
                 = requests (dockers w (docker (managers w m))) @ new
               \<and> stops new = map fst (filter (\<lambda>p. expired now (snd p)) rest)"
  using assms
proof (induction rest arbitrary: w)
  case Nil
  then show ?case by simp
next
  case (Cons q rest)
  obtain ident info where q: "q = (ident, info)" by (cases q)
  note head = pending_head [OF Cons.prems(1) [unfolded q]]
  show ?case
  proof (cases "expired now info")
    case True
    let ?w1 = "snd (TerminateContainer m ident w)"
    let ?dc = "docker (managers w m)"
    have pend1: "pending m rest ?w1" using Cons.prems(1) q pending_step by simp
    have dc: "docker (managers ?w1 m) = ?dc"
      using TerminateContainer_frame [of w m ident] by (simp add: frame_def)
    obtain new1 where new1: "requests (dockers ?w1 ?dc) = requests (dockers w ?dc) @ new1"
      "stops new1 = [ident]"
      using TerminateContainer_step [OF head(1)] by blast
    obtain new2 where new2: "requests (dockers (cleanupLoop m now rest ?w1) ?dc)
        = requests (dockers ?w1 ?dc) @ new2"
      "stops new2 = map fst (filter (\<lambda>p. expired now (snd p)) rest)"
      using Cons.IH [OF pend1] dc by auto
    have "requests (dockers (cleanupLoop m now (q # rest) w) ?dc)
          = requests (dockers w ?dc) @ (new1 @ new2)"
      using True new1 new2 by (simp add: q)
    moreover have "stops (new1 @ new2) = map fst (filter (\<lambda>p. expired now (snd p)) (q # rest))"
      using True new1 new2 by (simp add: q stops_append)
    ultimately show ?thesis by blast
  next
    case False
    then show ?thesis using Cons.IH [OF head(3)] by (simp add: q)
  qed
qed

lemma delete_filter: "AList.delete k al = filter (\<lambda>p. fst p \<noteq> k) al"
  by (induction al) auto

lemma step_reliable:
  "map_of (state (managers w m)) ident = Some info \<Longrightarrow> reliable (dockers w (docker (managers w m)))
   \<Longrightarrow> terminated m ident info w (snd (TerminateContainer m ident w))"
  using TerminateContainer_step [of w m ident info] by (simp split: if_splits)

lemma frame_docker: "frame w w1 \<Longrightarrow> docker (managers w1 m) = docker (managers w m)"
  by (simp add: frame_def)

lemma frame_cli: "frame w w1 \<Longrightarrow> cli (dockers w1 d) = cli (dockers w d)"
  by (simp add: frame_def)

lemma frame_reliable:
  assumes "frame w w1" and "reliable (dockers w (docker (managers w m)))"
  shows "reliable (dockers w1 (docker (managers w1 m)))"
proof -
  have "cli (dockers w1 (docker (managers w m))) = cli (dockers w (docker (managers w m)))"
    using assms(1) by (rule frame_cli)
  then have "reliable (dockers w1 (docker (managers w m)))"
    using assms(2) by (simp add: reliable_def)
  then show ?thesis by (simp only: frame_docker [OF assms(1)])
qed

lemma cleanupLoop_reliable:
  assumes "pending m rest w" and "reliable (dockers w (docker (managers w m)))"
  shows "state (managers (cleanupLoop m now rest w) m)
         = filter (\<lambda>p. \<not> (p \<in> set rest \<and> expired now (snd p))) (state (managers w m))"
  using assms
proof (induction rest arbitrary: w)
  case Nil
  then show ?case by simp
next
  case (Cons q rest)
  obtain ident info where q: "q = (ident, info)" by (cases q)
  note head = pending_head [OF Cons.prems(1) [unfolded q]]
  have dist: "distinct (map fst (state (managers w m)))"
    and mem: "(ident, info) \<in> set (state (managers w m))"
    using Cons.prems(1) by (simp_all add: pending_def q)
  have unique: "p = (ident, info)" if "p \<in> set (state (managers w m))" and "fst p = ident" for p
  proof -
    obtain k v where p: "p = (k, v)" by (cases p)
    have "(ident, v) \<in> set (state (managers w m))" using that by (simp add: p)
    with dist have "v = info" using mem by (rule distinct_key_unique)
    with that(2) show ?thesis by (simp add: p)
  qed
  let ?xs = "state (managers w m)"
  let ?A = "\<lambda>p. \<not> (p \<in> set rest \<and> expired now (snd p))"
  let ?C = "\<lambda>p. \<not> (p \<in> set (q # rest) \<and> expired now (snd p))"
  show ?case
  proof (cases "expired now info")
    case True
    let ?w1 = "snd (TerminateContainer m ident w)"
    have loop: "cleanupLoop m now (q # rest) w = cleanupLoop m now rest ?w1"
      using True by (simp add: q)
    have pend1: "pending m rest ?w1" using Cons.prems(1) q pending_step by simp
    have fr: "frame w ?w1" by (rule TerminateContainer_frame)
    have "reliable (dockers ?w1 (docker (managers ?w1 m)))"
      using fr Cons.prems(2) by (rule frame_reliable)
    with pend1 have ih: "state (managers (cleanupLoop m now rest ?w1) m) = filter ?A (state (managers ?w1 m))"
      by (rule Cons.IH)
    have "terminated m ident info w ?w1" using head(1) Cons.prems(2) by (rule step_reliable)
    then have st1: "state (managers ?w1 m) = filter (\<lambda>p. fst p \<noteq> ident) ?xs"
      by (simp add: terminated_def delete_filter)
    have pointwise: "(fst p \<noteq> ident \<and> ?A p) = ?C p" if "p \<in> set ?xs" for p
    proof (cases "fst p = ident")
      case True
      then have "p = q" using unique that q by simp
      then show ?thesis using \<open>expired now info\<close> True q by simp
    next
      case False
      then have "p \<noteq> q" using q by auto
      then show ?thesis using False by simp
    qed
    have "state (managers (cleanupLoop m now (q # rest) w) m)
          = filter ?A (filter (\<lambda>p. fst p \<noteq> ident) ?xs)"
      by (simp only: loop ih st1)
    also have "\<dots> = filter (\<lambda>p. fst p \<noteq> ident \<and> ?A p) ?xs"
      by (simp only: filter_filter conj_commute)
    also have "\<dots> = filter ?C ?xs"
      using pointwise by (rule filter_cong [OF refl])
    finally show ?thesis .
  next
    case False
    have loop: "cleanupLoop m now (q # rest) w = cleanupLoop m now rest w"
      using False by (simp add: q)
    have ih: "state (managers (cleanupLoop m now rest w) m) = filter ?A ?xs"
      using head(3) Cons.prems(2) by (rule Cons.IH)
    have pointwise: "?A p = ?C p" if "p \<in> set ?xs" for p
      using False q by auto
    have "state (managers (cleanupLoop m now (q # rest) w) m) = filter ?A ?xs"
      by (simp only: loop ih)
    also have "\<dots> = filter ?C ?xs"
      using pointwise by (rule filter_cong [OF refl])
    finally show ?thesis .
  qed
qed

text \<open>
  C8. \<open>TerminateContainer\<close> on an id that is not in the manager's state returns
  "container not found" and the store as it was (no record, reservation or backend request
  changes). When the record exists and the backend refuses the stop, or accepts the stop
  and refuses the removal, the error returned wraps the backend's error. Whenever an error
  is returned, all ledgers and all manager states are as before. When no error is
  returned, the backend accepted both the stop and the removal, the reservation under the
  record's name is released and the record is deleted.
\<close>

theorem TerminateContainer_order:
  "(map_of (state (managers w m)) ident = None
      \<longrightarrow> TerminateContainer m ident w = (Some (Error ''container not found''), w))
   \<and> (\<forall>info err. map_of (state (managers w m)) ident = Some info \<and> stop_reply m ident w = Inl err
      \<longrightarrow> fst (TerminateContainer m ident w) = Some (Errorf ''stop error: '' err))
   \<and> (\<forall>info a err. map_of (state (managers w m)) ident = Some info \<and> stop_reply m ident w = Inr a
         \<and> remove_reply m ident w = Inl err
      \<longrightarrow> fst (TerminateContainer m ident w) = Some (Errorf ''remove error: '' err))
   \<and> (fst (TerminateContainer m ident w) \<noteq> None
      \<longrightarrow> ledgers (snd (TerminateContainer m ident w)) = ledgers w
          \<and> managers (snd (TerminateContainer m ident w)) = managers w)
   \<and> (fst (TerminateContainer m ident w) = None
      \<longrightarrow> (\<exists>info a b. map_of (state (managers w m)) ident = Some info
            \<and> stop_reply m ident w = Inr a \<and> remove_reply m ident w = Inr b
            \<and> ledgers (snd (TerminateContainer m ident w))
                = (ledgers w)(resources (managers w m) :=
                     Release (ledgers w (resources (managers w m))) (info_Name info))
            \<and> managers (snd (TerminateContainer m ident w))
                = (managers w)(m := (managers w m)\<lparr>state := AList.delete ident (state (managers w m))\<rparr>)))"
proof (cases "map_of (state (managers w m)) ident")
  case None
  then show ?thesis by (simp add: TerminateContainer_absent)
next
  case (Some info)
  show ?thesis
  proof (cases "stop_reply m ident w")
    case (Inl err)
    with Some show ?thesis by (simp add: TerminateContainer_stop_failed sent_def)
  next
    case stop: (Inr a)
    show ?thesis
    proof (cases "remove_reply m ident w")
      case (Inl err)
      with Some stop show ?thesis by (simp add: TerminateContainer_remove_failed sent_def)
    next
      case (Inr b)
      with Some stop show ?thesis by (simp add: TerminateContainer_done sent_def)
    qed
  qed
qed


theorem TerminateContainer_order_witness:
  "map_of (state (managers (main_store (daemon is_stop)) 101)) ''id-web'' = None
   \<and> TerminateContainer 101 ''id-web'' (main_store (daemon is_stop)) = (Some (Error ''container not found''), main_store (daemon is_stop))
   \<and> map_of (state (managers (running_store is_stop) 101)) ''id-web'' \<noteq> None
   \<and> stop_reply 101 ''id-web'' (running_store is_stop) = Inl (Error ''refused'')
   \<and> fst (TerminateContainer 101 ''id-web'' (running_store is_stop)) = Some (Error ''stop error: refused'')
   \<and> ledgers (snd (TerminateContainer 101 ''id-web'' (running_store is_stop))) = ledgers (running_store is_stop)
   \<and> managers (snd (TerminateContainer 101 ''id-web'' (running_store is_stop))) = managers (running_store is_stop)
   \<and> fst (TerminateContainer 101 ''id-web'' (running_store (\<lambda>r. False))) = None
   \<and> map_of (state (managers (snd (TerminateContainer 101 ''id-web'' (running_store (\<lambda>r. False)))) 101)) ''id-web'' = None
   \<and> allocatedMemory (ledgers (snd (TerminateContainer 101 ''id-web'' (running_store (\<lambda>r. False)))) 101) = []"
proof -
  have absent: "map_of (state (managers (main_store (daemon is_stop)) 101)) ''id-web'' = None"
    by (simp add: eval_defs)
  have present: "map_of (state (managers (running_store is_stop) 101)) ''id-web'' =
      Some \<lparr>info_ID = ''id-web'', info_Name = ''web'', info_Image = ''nginx'', info_CPU = 1,
            info_MemoryMB = 2048, info_CreatedAt = 0, info_Status = ''running'', info_TTL = 0\<rparr>"
    by (simp add: eval_defs)
  have refused: "stop_reply 101 ''id-web'' (running_store is_stop) = Inl (Error ''refused'')"
    by (simp add: eval_defs)
  have failed: "fst (TerminateContainer 101 ''id-web'' (running_store is_stop)) \<noteq> None"
    by (simp add: TerminateContainer_stop_failed [OF present refused])
  have fin: "fst (TerminateContainer 101 ''id-web'' (running_store (\<lambda>r. False))) = None"
    by (simp add: eval_defs TerminateContainer_def)
  note a = TerminateContainer_order [of "main_store (daemon is_stop)" 101 "''id-web''"]
  note b = TerminateContainer_order [of "running_store is_stop" 101 "''id-web''"]
  note c = TerminateContainer_order [of "running_store (\<lambda>r. False)" 101 "''id-web''"]
  have 1: "TerminateContainer 101 ''id-web'' (main_store (daemon is_stop)) = (Some (Error ''container not found''), main_store (daemon is_stop))"
    using a absent by blast
  have 2: "fst (TerminateContainer 101 ''id-web'' (running_store is_stop)) = Some (Errorf ''stop error: '' (Error ''refused''))"
    using b present refused by blast
  have 3: "ledgers (snd (TerminateContainer 101 ''id-web'' (running_store is_stop))) = ledgers (running_store is_stop)
   \<and> managers (snd (TerminateContainer 101 ''id-web'' (running_store is_stop))) = managers (running_store is_stop)"
    using b failed by blast
  have 4: "\<exists>info a b. map_of (state (managers (running_store (\<lambda>r. False)) 101)) ''id-web'' = Some info
            \<and> stop_reply 101 ''id-web'' (running_store (\<lambda>r. False)) = Inr a \<and> remove_reply 101 ''id-web'' (running_store (\<lambda>r. False)) = Inr b
            \<and> ledgers (snd (TerminateContainer 101 ''id-web'' (running_store (\<lambda>r. False))))
                = (ledgers (running_store (\<lambda>r. False)))(resources (managers (running_store (\<lambda>r. False)) 101) :=
                     Release (ledgers (running_store (\<lambda>r. False)) (resources (managers (running_store (\<lambda>r. False)) 101))) (info_Name info))
            \<and> managers (snd (TerminateContainer 101 ''id-web'' (running_store (\<lambda>r. False))))
                = (managers (running_store (\<lambda>r. False)))(101 := (managers (running_store (\<lambda>r. False)) 101)\<lparr>state := AList.delete ''id-web'' (state (managers (running_store (\<lambda>r. False)) 101))\<rparr>)"
    using c fin by blast
  have 5: "map_of (state (managers (snd (TerminateContainer 101 ''id-web'' (running_store (\<lambda>r. False)))) 101)) ''id-web'' = None
   \<and> allocatedMemory (ledgers (snd (TerminateContainer 101 ''id-web'' (running_store (\<lambda>r. False)))) 101) = []"
    using 4 by (auto simp add: eval_defs)
  show ?thesis using absent present refused 1 2 3 fin 5 by simp
qed


lemmas sweep_defs = stale_store_def sweep_store_def cleanupExpiredContainers_def expired_def Add_def Before_def
  TerminateContainer_def

text \<open>
  C7, as the code has it. The sweep's test is \<open>TTL > 0\<close>, not \<open>TTL \<noteq> 0\<close>. For a manager
  whose state has distinct keys, one run of \<open>cleanupExpiredContainers\<close> at time \<open>now\<close>:
  keeps every record that is not expired (\<open>TTL \<le> 0\<close>, or \<open>CreatedAt + TTL\<close> not before
  \<open>now\<close>), in particular every record with \<open>TTL = 0\<close>; removes only expired records, and
  the name of a removed record has no reservation left in the manager's ledger; asks the
  backend to stop exactly the expired records, in the order of the iteration; and, when
  the backend refuses no stop and no removal, leaves exactly the records that are not
  expired.
\<close>

theorem sweep_terminates_expired:
  assumes "distinct (map fst (state (managers w m)))"
  shows "(\<forall>p \<in> set (state (managers w m)).
            \<not> expired now (snd p) \<longrightarrow> p \<in> set (state (managers (cleanupExpiredContainers m now w) m)))
         \<and> (\<forall>p \<in> set (state (managers w m)).
            info_TTL (snd p) = 0 \<longrightarrow> p \<in> set (state (managers (cleanupExpiredContainers m now w) m)))
         \<and> (\<forall>p \<in> set (state (managers w m)).
            p \<notin> set (state (managers (cleanupExpiredContainers m now w) m))
            \<longrightarrow> expired now (snd p)
                \<and> info_Name (snd p)
                    \<notin> reserved (ledgers (cleanupExpiredContainers m now w) (resources (managers w m))))
         \<and> set (state (managers (cleanupExpiredContainers m now w) m)) \<subseteq> set (state (managers w m))
         \<and> (\<exists>new. requests (dockers (cleanupExpiredContainers m now w) (docker (managers w m)))
                     = requests (dockers w (docker (managers w m))) @ new
                   \<and> stops new = map fst (filter (\<lambda>p. expired now (snd p)) (state (managers w m))))
         \<and> (reliable (dockers w (docker (managers w m)))
            \<longrightarrow> state (managers (cleanupExpiredContainers m now w) m)
                = filter (\<lambda>p. \<not> expired now (snd p)) (state (managers w m)))"
proof -
  let ?xs = "state (managers w m)"
  let ?w' = "cleanupLoop m now ?xs w"
  have pend: "pending m ?xs w" using assms by (simp add: pending_def)
  have keep: "p \<in> set (state (managers ?w' m))" if "p \<in> set ?xs" and "\<not> expired now (snd p)" for p
    using pend that by (simp add: cleanupLoop_keeps)
  have zero: "\<not> expired now (snd p)" if "info_TTL (snd p) = 0" for p
    using that by (simp add: expired_def)
  have gone: "expired now (snd p) \<and> info_Name (snd p) \<notin> reserved (ledgers ?w' (resources (managers w m)))"
    if "p \<in> set ?xs" and "p \<notin> set (state (managers ?w' m))" for p
    using keep [of p] cleanupLoop_released [OF pend that] that by blast
  have sub: "set (state (managers ?w' m)) \<subseteq> set ?xs"
    using cleanupLoop_frame [of w m now ?xs] by (simp add: frame_def)
  have reqs: "\<exists>new. requests (dockers ?w' (docker (managers w m)))
                     = requests (dockers w (docker (managers w m))) @ new
                   \<and> stops new = map fst (filter (\<lambda>p. expired now (snd p)) ?xs)"
    using pend by (rule cleanupLoop_requests)
  have rel: "state (managers ?w' m) = filter (\<lambda>p. \<not> expired now (snd p)) ?xs"
    if "reliable (dockers w (docker (managers w m)))"
  proof -
    have "state (managers ?w' m) = filter (\<lambda>p. \<not> (p \<in> set ?xs \<and> expired now (snd p))) ?xs"
      using pend that by (rule cleanupLoop_reliable)
    also have "\<dots> = filter (\<lambda>p. \<not> expired now (snd p)) ?xs"
      by (rule filter_cong [OF refl]) simp
    finally show ?thesis .
  qed
  show ?thesis
    unfolding cleanupExpiredContainers_def
    using keep zero gone sub reqs rel by blast
qed

theorem sweep_terminates_expired_witness:
  "distinct (map fst (state (managers sweep_store 101)))
   \<and> reliable (dockers sweep_store (docker (managers sweep_store 101)))
   \<and> state (managers (cleanupExpiredContainers 101 100 sweep_store) 101)
      = [(''id-web'', \<lparr>info_ID = ''id-web'', info_Name = ''web'', info_Image = ''nginx'',
            info_CPU = 1, info_MemoryMB = 2048, info_CreatedAt = 0,
            info_Status = ''running'', info_TTL = 0\<rparr>)]"
proof -
  have d: "distinct (map fst (state (managers sweep_store 101)))"
    by (simp add: sweep_defs eval_defs)
  have r: "reliable (dockers sweep_store (docker (managers sweep_store 101)))"
    by (simp add: sweep_defs eval_defs reliable_def)
  have "state (managers (cleanupExpiredContainers 101 100 sweep_store) 101)
        = filter (\<lambda>p. \<not> expired 100 (snd p)) (state (managers sweep_store 101))"
    using sweep_terminates_expired [OF d, of 100] r by blast
  also have "\<dots> = [(''id-web'', \<lparr>info_ID = ''id-web'', info_Name = ''web'', info_Image = ''nginx'',
            info_CPU = 1, info_MemoryMB = 2048, info_CreatedAt = 0,
            info_Status = ''running'', info_TTL = 0\<rparr>)]"
    by (simp add: sweep_defs eval_defs)
  finally show ?thesis using d r by simp
qed

text \<open>
  C7 as stated fails for a negative time-to-live: the record of \<open>stale_store\<close> has
  \<open>TTL = -5s\<close>, which is not zero, and \<open>CreatedAt + TTL\<close> is before \<open>now = 10s\<close>, yet the
  sweep leaves the manager, the ledger and the backend untouched.
\<close>

theorem sweep_negative_ttl_counterexample:
  "map_of (state (managers stale_store 101)) ''id-web''
     = Some \<lparr>info_ID = ''id-web'', info_Name = ''web'', info_Image = ''nginx'', info_CPU = 1,
             info_MemoryMB = 2048, info_CreatedAt = 0, info_Status = ''running'',
             info_TTL = - 5000000000\<rparr>
   \<and> (- 5000000000 :: Duration) \<noteq> 0
   \<and> Before (Add 0 (- 5000000000)) 10000000000
   \<and> managers (cleanupExpiredContainers 101 10000000000 stale_store) 101 = managers stale_store 101
   \<and> ledgers (cleanupExpiredContainers 101 10000000000 stale_store) 101 = ledgers stale_store 101
   \<and> requests (dockers (cleanupExpiredContainers 101 10000000000 stale_store) 101)
       = requests (dockers stale_store 101)"
  by (simp add: sweep_defs eval_defs)


section \<open>Properties of the Cluster Scheduler\<close>






lemma Schedule_unchanged_cluster: "fst (snd (Schedule cm now containerID spec w)) = cm"
  by (simp add: Schedule_def Let_def split: option.splits prod.splits bool.splits sum.splits)





lemmas ledger_defs = CanAllocate_def requested_def leftover_def AllocatedCPUSum_def
  AllocatedMemorySum_def NewResourceManager_def

lemmas select_defs = selectNode_def eligible_def score_def main_cluster_def NewClusterManager_def
  main_store_def node1_def node2_def web_def MaxFloat64_def










lemmas schedule_defs = Schedule_def AddContainer_def idle_store_def scheduled_store_def named_def
  ClusterTerminateContainer_def ClusterGetContainerStatus_def GetContainerStatus_def Usage_def




text \<open>
  C1. A failed provisioning is meant to release its reservation. In \<open>Schedule\<close>, when the
  backend refuses the start and then refuses the removal of the created container, the
  function returns the removal's error without calling \<open>Release\<close>: the ledger of node1,
  empty before the call, keeps 1 core and 2048 MB reserved for the id \<open>u-1\<close>.
\<close>

theorem Schedule_leaks_reservation:
  "fst (Schedule main_cluster 0 ''u-1'' web (main_store (daemon cleanup_refused)))
     = (None, Some (Error ''refused''))
   \<and> requests (dockers (snd (snd (Schedule main_cluster 0 ''u-1'' web (main_store (daemon cleanup_refused))))) 101)
     = [ContainerCreate named, ContainerStart ''id-u-1'', ContainerRemove ''id-u-1'']
   \<and> Usage (ledgers (main_store (daemon cleanup_refused)) 101) = \<lparr>CPU = 0, Memory = 0\<rparr>
   \<and> Usage (ledgers (snd (snd (Schedule main_cluster 0 ''u-1'' web (main_store (daemon cleanup_refused))))) 101)
     = \<lparr>CPU = 1, Memory = 2048\<rparr>
   \<and> allocatedMemory (ledgers (snd (snd (Schedule main_cluster 0 ''u-1'' web (main_store (daemon cleanup_refused))))) 101)
     = [(''u-1'', 2048)]"
  by (simp add: schedule_defs select_defs ledger_defs eval_defs cleanup_refused_def)

text \<open>
  Every failure of \<open>ProvisionContainer\<close> after the reservation leaves no reservation
  under the request's name.
\<close>

lemma ProvisionContainer_failure_releases:
  assumes "fst (ProvisionContainer m now spec w) = (None, Some err)"
    and "err \<noteq> Error ''insufficient resources to allocate container''"
    and "err \<noteq> Error ''failed to reserve resources''"
  shows "spec_Name spec \<notin> reserved (ledgers (snd (ProvisionContainer m now spec w)) (resources (managers w m)))"
  using assms
  by (auto simp add: ProvisionContainer_def Let_def AllocateAt_def ReleaseAt_def reserved_Release
      PullImage_def CreateContainer_def StartContainer_def dockerCall_def send_def
      split: option.splits prod.splits bool.splits sum.splits if_splits)

text \<open>
  \<open>ProvisionContainer\<close> releases by the request's name: a failed request whose name
  is that of a running workload removes the running workload's reservation.
\<close>

lemma ProvisionContainer_same_name:
  "fst (ProvisionContainer 101 0 (web\<lparr>spec_Image := ''redis''\<rparr>) (running_store (\<lambda>r. r = ImagePull ''redis'')))
     = (None, Some (Error ''failed to pull image: refused''))
   \<and> allocatedMemory (ledgers (running_store (\<lambda>r. r = ImagePull ''redis'')) 101) = [(''web'', 2048)]
   \<and> allocatedMemory (ledgers (snd (ProvisionContainer 101 0 (web\<lparr>spec_Image := ''redis''\<rparr>)
         (running_store (\<lambda>r. r = ImagePull ''redis'')))) 101) = []
   \<and> map_of (state (managers (snd (ProvisionContainer 101 0 (web\<lparr>spec_Image := ''redis''\<rparr>)
         (running_store (\<lambda>r. r = ImagePull ''redis'')))) 101)) ''id-web'' \<noteq> None"
  by (simp add: eval_defs)

text \<open>
  C2. A successful \<open>Schedule\<close> is meant to record the workload's node in the assignment
  mapping. It returns the record and stores it in node1's manager, but the mapping of the
  cluster it leaves is empty, and \<open>GetContainerStatus\<close> of the cluster, which reads the
  mapping, does not find the workload. No call of \<open>Schedule\<close> changes the cluster's
  mapping.
\<close>

theorem Schedule_records_no_assignment:
  "fst (Schedule main_cluster 0 ''u-1'' web idle_store)
     = (Some \<lparr>info_ID = ''id-u-1'', info_Name = ''u-1'', info_Image = ''nginx'', info_CPU = 1,
              info_MemoryMB = 2048, info_CreatedAt = 0, info_Status = ''Running'', info_TTL = 0\<rparr>,
        None)
   \<and> assignments (fst (snd (Schedule main_cluster 0 ''u-1'' web idle_store))) = []
   \<and> fst (snd (Schedule cm now containerID spec w)) = cm
   \<and> map_of (state (managers scheduled_store 101)) ''id-u-1''
     = Some \<lparr>info_ID = ''id-u-1'', info_Name = ''u-1'', info_Image = ''nginx'', info_CPU = 1,
             info_MemoryMB = 2048, info_CreatedAt = 0, info_Status = ''Running'', info_TTL = 0\<rparr>
   \<and> ClusterGetContainerStatus (fst (snd (Schedule main_cluster 0 ''u-1'' web idle_store)))
        ''id-u-1'' scheduled_store
     = (None, Some (Error ''container id-u-1 not found''))"
  using Schedule_unchanged_cluster [of cm now containerID spec w]
  by (simp add: schedule_defs select_defs ledger_defs eval_defs)

text \<open>
  C4. The steps of \<open>Schedule\<close> on the selected node are meant to be those of
  \<open>ProvisionContainer\<close> under the generated name. On the same store and request,
  \<open>ProvisionContainer\<close> pulls the image, creates and starts, and stores the status
  "running"; \<open>Schedule\<close> creates and starts without pulling, and stores the status
  "Running". When the backend refuses the start, \<open>ProvisionContainer\<close> returns
  "failed to start container: refused" and leaves the created container;
  \<open>Schedule\<close> removes the container and returns neither a record nor an error.
\<close>

theorem Schedule_differs_from_ProvisionContainer:
  "requests (dockers (snd (ProvisionContainer 101 0 named idle_store)) 101)
     = [ImagePull ''nginx'', ContainerCreate named, ContainerStart ''id-u-1'']
   \<and> requests (dockers (snd (snd (Schedule main_cluster 0 ''u-1'' web idle_store))) 101)
     = [ContainerCreate named, ContainerStart ''id-u-1'']
   \<and> map_option info_Status (fst (fst (ProvisionContainer 101 0 named idle_store))) = Some ''running''
   \<and> map_option info_Status (fst (fst (Schedule main_cluster 0 ''u-1'' web idle_store))) = Some ''Running''
   \<and> fst (ProvisionContainer 101 0 named (main_store (daemon is_start)))
     = (None, Some (Error ''failed to start container: refused''))
   \<and> fst (Schedule main_cluster 0 ''u-1'' web (main_store (daemon is_start))) = (None, None)
   \<and> requests (dockers (snd (ProvisionContainer 101 0 named (main_store (daemon is_start)))) 101)
     = [ImagePull ''nginx'', ContainerCreate named, ContainerStart ''id-u-1'']
   \<and> requests (dockers (snd (snd (Schedule main_cluster 0 ''u-1'' web (main_store (daemon is_start))))) 101)
     = [ContainerCreate named, ContainerStart ''id-u-1'', ContainerRemove ''id-u-1'']"
  by (simp add: schedule_defs select_defs ledger_defs eval_defs)

end
